theory Spec2Isabelle
  imports Main
begin

section \<open>The result renderer of \<^verbatim>\<open>static/script.js\<close>\<close>

text \<open>
  The renderer is the chain \<^verbatim>\<open>displayResult\<close> \<open>\<rightarrow>\<close> \<^verbatim>\<open>formatSuccessResult\<close> \<open>\<rightarrow>\<close>
  \<^verbatim>\<open>formatData\<close> \<open>\<rightarrow>\<close> \<^verbatim>\<open>formatObject\<close> (lines 143 to 229 of the script). It receives
  the value that \<^verbatim>\<open>response.json()\<close> produced and writes an HTML string into a
  result box. Each function is embedded under its own name; the JavaScript built-ins
  it calls (\<^verbatim>\<open>Object.entries\<close>, \<^verbatim>\<open>JSON.stringify\<close>, template-literal string conversion,
  the two \<^verbatim>\<open>String.replace\<close> calls) are embedded from the language standard.
\<close>

subsection \<open>JSON values\<close>

text \<open>
  A parsed JSON value. An object is the list of its own properties in enumeration
  order (the order of \<^verbatim>\<open>Object.entries\<close> and of \<^verbatim>\<open>JSON.stringify\<close>); a parsed object
  has each key once. Strings are HOL strings: ASCII text has one \<^typ>\<open>char\<close> per code
  unit, and the two non-ASCII literals of the source (the check mark and the cross)
  are written as their UTF-8 bytes.

  Numbers are IEEE doubles in JavaScript. The renderer never computes with a number:
  it converts it to text and tests it for truthiness. The number type is therefore a
  parameter \<open>'n\<close>, and the three primitives used on it are the fields of
  \<open>number_ops\<close>.
\<close>

datatype 'n json =
    JNull
  | JBool bool
  | JNum 'n
  | JStr string
  | JArr "'n json list"
  | JObj "(string \<times> 'n json) list"

record 'n number_ops =
  numToString :: "'n \<Rightarrow> string"  \<comment> \<open>\<^verbatim>\<open>Number::toString\<close>, radix 10\<close>
  numIsFinite :: "'n \<Rightarrow> bool"  \<comment> \<open>false for \<^verbatim>\<open>Infinity\<close>, \<^verbatim>\<open>-Infinity\<close>, \<^verbatim>\<open>NaN\<close>\<close>
  numIsFalsy :: "'n \<Rightarrow> bool"  \<comment> \<open>true for \<^verbatim>\<open>+0\<close>, \<^verbatim>\<open>-0\<close>, \<^verbatim>\<open>NaN\<close>\<close>

text \<open>The integers, as one instance of the number primitives (used to run examples).\<close>

fun decimal :: "nat \<Rightarrow> string" where
  "decimal n =
     (if n < 10 then [''0123456789'' ! n]
      else decimal (n div 10) @ [''0123456789'' ! (n mod 10)])"

declare decimal.simps [simp del]

definition int_ops :: "int number_ops" where
  "int_ops =
     \<lparr> numToString = (\<lambda>i. if i < 0 then ''-'' @ decimal (nat (- i)) else decimal (nat i)),
       numIsFinite = (\<lambda>i. True),
       numIsFalsy = (\<lambda>i. i = 0) \<rparr>"

text \<open>The only exception the renderer can raise is a \<^verbatim>\<open>TypeError\<close>.\<close>

datatype error = TypeError

subsection \<open>JavaScript primitives\<close>

text \<open>\<^verbatim>\<open>ToBoolean\<close>; \<open>None\<close> is \<^verbatim>\<open>undefined\<close>, the value of a missing property.\<close>

fun truthy :: "'n number_ops \<Rightarrow> 'n json \<Rightarrow> bool" where
  "truthy N JNull = False"
| "truthy N (JBool b) = b"
| "truthy N (JNum n) = (\<not> numIsFalsy N n)"
| "truthy N (JStr s) = (s \<noteq> [])"
| "truthy N (JArr xs) = True"
| "truthy N (JObj kvs) = True"

fun truthy_opt :: "'n number_ops \<Rightarrow> 'n json option \<Rightarrow> bool" where
  "truthy_opt N None = False"
| "truthy_opt N (Some v) = truthy N v"

text \<open>
  Property read \<^verbatim>\<open>data.name\<close>. Reading a property of \<^verbatim>\<open>null\<close> throws. The renderer
  reads only \<^verbatim>\<open>status\<close>, \<^verbatim>\<open>success\<close>, \<^verbatim>\<open>data\<close>, \<^verbatim>\<open>result\<close> and \<^verbatim>\<open>metadata\<close>; booleans,
  numbers, strings and arrays have none of these, neither own nor inherited, and
  \<^verbatim>\<open>Object.prototype\<close> has none either, so for an object the read is the lookup of an
  own property.
\<close>

fun getProp :: "'n json \<Rightarrow> string \<Rightarrow> error + 'n json option" where
  "getProp JNull name = Inl TypeError"
| "getProp (JObj kvs) name = Inr (map_of kvs name)"
| "getProp v name = Inr None"

fun join :: "string \<Rightarrow> string list \<Rightarrow> string" where
  "join sep [] = []"
| "join sep [x] = x"
| "join sep (x # y # ys) = x @ sep @ join sep (y # ys)"

text \<open>
  \<^verbatim>\<open>ToString\<close>, as applied by a template literal \<^verbatim>\<open>${v}\<close>. An array is joined with
  commas, \<^verbatim>\<open>null\<close> elements giving the empty string; a plain object gives
  \<^verbatim>\<open>[object Object]\<close>.
\<close>

fun toString :: "'n number_ops \<Rightarrow> 'n json \<Rightarrow> string" where
  "toString N JNull = ''null''"
| "toString N (JBool b) = (if b then ''true'' else ''false'')"
| "toString N (JNum n) = numToString N n"
| "toString N (JStr s) = s"
| "toString N (JArr xs) =
     join '','' (map (\<lambda>x. case x of JNull \<Rightarrow> [] | _ \<Rightarrow> toString N x) xs)"
| "toString N (JObj kvs) = ''[object Object]''"

text \<open>
  The own enumerable properties of a value, as \<^verbatim>\<open>{ ...v }\<close> copies them: the elements of
  an array and the characters of a string under their decimal indices, nothing for a
  boolean, a number or \<^verbatim>\<open>null\<close>. \<^verbatim>\<open>Object.entries\<close> lists the same pairs but throws on
  \<^verbatim>\<open>null\<close>.
\<close>

fun indexed :: "nat \<Rightarrow> 'a list \<Rightarrow> (string \<times> 'a) list" where
  "indexed i [] = []"
| "indexed i (x # xs) = (decimal i, x) # indexed (Suc i) xs"

fun ownProperties :: "'n json \<Rightarrow> (string \<times> 'n json) list" where
  "ownProperties (JObj kvs) = kvs"
| "ownProperties (JArr xs) = indexed 0 xs"
| "ownProperties (JStr s) = indexed 0 (map (\<lambda>c. JStr [c]) s)"
| "ownProperties v = []"

definition Object_entries :: "'n json \<Rightarrow> error + (string \<times> 'n json) list" where
  "Object_entries v = (if v = JNull then Inl TypeError else Inr (ownProperties v))"

text \<open>
  \<^verbatim>\<open>JSON.stringify(v, null, 2)\<close>. \<open>QuoteJSONString\<close> escapes the quote, the backslash
  and the control characters; a non-finite number is printed as \<^verbatim>\<open>null\<close>; an empty
  array or object is printed without line breaks; otherwise every element or member
  is on its own line, indented two spaces deeper than the enclosing bracket.
\<close>

definition hexDigit :: "nat \<Rightarrow> char" where
  "hexDigit n = ''0123456789abcdef'' ! n"

definition quoteChar :: "char \<Rightarrow> string" where
  "quoteChar c =
     (if c = CHR 0x08 then [CHR 0x5C, CHR ''b'']
      else if c = CHR 0x09 then [CHR 0x5C, CHR ''t'']
      else if c = CHR 0x0A then [CHR 0x5C, CHR ''n'']
      else if c = CHR 0x0C then [CHR 0x5C, CHR ''f'']
      else if c = CHR 0x0D then [CHR 0x5C, CHR ''r'']
      else if c = CHR 0x22 then [CHR 0x5C, CHR 0x22]
      else if c = CHR 0x5C then [CHR 0x5C, CHR 0x5C]
      else if (of_char c :: nat) < 32
        then [CHR 0x5C, CHR ''u'', CHR ''0'', CHR ''0'',
              hexDigit (of_char c div 16), hexDigit (of_char c mod 16)]
      else [c])"

definition QuoteJSONString :: "string \<Rightarrow> string" where
  "QuoteJSONString s = [CHR 0x22] @ concat (map quoteChar s) @ [CHR 0x22]"

fun SerializeJSON :: "'n number_ops \<Rightarrow> string \<Rightarrow> 'n json \<Rightarrow> string" where
  "SerializeJSON N indent JNull = ''null''"
| "SerializeJSON N indent (JBool b) = (if b then ''true'' else ''false'')"
| "SerializeJSON N indent (JNum n) = (if numIsFinite N n then numToString N n else ''null'')"
| "SerializeJSON N indent (JStr s) = QuoteJSONString s"
| "SerializeJSON N indent (JArr xs) =
     (if xs = [] then ''[]''
      else ''['' @ [CHR 0x0A] @ (indent @ ''  '')
           @ join ('','' @ [CHR 0x0A] @ (indent @ ''  ''))
                  (map (SerializeJSON N (indent @ ''  '')) xs)
           @ [CHR 0x0A] @ indent @ '']'')"
| "SerializeJSON N indent (JObj kvs) =
     (if kvs = [] then ''{}''
      else ''{'' @ [CHR 0x0A] @ (indent @ ''  '')
           @ join ('','' @ [CHR 0x0A] @ (indent @ ''  ''))
                  (map (\<lambda>(k, v). QuoteJSONString k @ '': '' @ SerializeJSON N (indent @ ''  '') v) kvs)
           @ [CHR 0x0A] @ indent @ ''}'')"

definition JSON_stringify :: "'n number_ops \<Rightarrow> 'n json \<Rightarrow> string" where
  "JSON_stringify N v = SerializeJSON N [] v"

subsection \<open>Key humanization (lines 213 to 215)\<close>

text \<open>
  \<^verbatim>\<open>key.replace(/_/g, " ").replace(/\b\w/g, (l) => l.toUpperCase())\<close>.
  \<^verbatim>\<open>\w\<close> is an ASCII letter, a digit or the underscore. \<^verbatim>\<open>\b\w\<close> matches a word character
  that is the first of the string or follows a character that is not one; the flag of
  \<open>upcaseWordStarts\<close> says whether the previous character was a word character.
  \<^verbatim>\<open>toUpperCase\<close> is applied to single word characters only, where it changes the
  lower-case ASCII letters and nothing else.
\<close>

definition isWordChar :: "char \<Rightarrow> bool" where
  "isWordChar c \<longleftrightarrow>
     c \<in> set ''abcdefghijklmnopqrstuvwxyzABCDEFGHIJKLMNOPQRSTUVWXYZ0123456789_''"

definition toUpperCase :: "char \<Rightarrow> char" where
  "toUpperCase c =
     (case map_of (zip ''abcdefghijklmnopqrstuvwxyz'' ''ABCDEFGHIJKLMNOPQRSTUVWXYZ'') c of
        Some u \<Rightarrow> u
      | None \<Rightarrow> c)"

definition replaceUnderscores :: "string \<Rightarrow> string" where
  "replaceUnderscores key = map (\<lambda>c. if c = CHR ''_'' then CHR '' '' else c) key"

fun upcaseWordStarts :: "bool \<Rightarrow> string \<Rightarrow> string" where
  "upcaseWordStarts prev [] = []"
| "upcaseWordStarts prev (c # cs) =
     (if isWordChar c \<and> \<not> prev then toUpperCase c else c) # upcaseWordStarts (isWordChar c) cs"

definition formattedKey :: "string \<Rightarrow> string" where
  "formattedKey key = upcaseWordStarts False (replaceUnderscores key)"

subsection \<open>\<^verbatim>\<open>formatObject\<close> (lines 210 to 229)\<close>

text \<open>
  One iteration of the \<^verbatim>\<open>for\<close> loop: the text appended to \<^verbatim>\<open>html\<close> for one entry.
  \<^verbatim>\<open>typeof value === "object"\<close> holds for arrays, objects and \<^verbatim>\<open>null\<close>.
\<close>

fun typeofObject :: "'n json \<Rightarrow> bool" where
  "typeofObject JNull = True"
| "typeofObject (JArr xs) = True"
| "typeofObject (JObj kvs) = True"
| "typeofObject v = False"

definition formatEntry :: "'n number_ops \<Rightarrow> string \<Rightarrow> 'n json \<Rightarrow> string" where
  "formatEntry N key val =
     (if typeofObject val \<and> val \<noteq> JNull then
        ''<div style=\"margin: 10px 0;\"><strong>'' @ formattedKey key @ '':</strong></div>''
        @ ''<pre style=\"background: white; padding: 10px; border-radius: 5px;\">''
        @ JSON_stringify N val @ ''</pre>''
      else
        ''<p><strong>'' @ formattedKey key @ '':</strong> '' @ toString N val @ ''</p>'')"

fun formatObject_loop :: "'n number_ops \<Rightarrow> (string \<times> 'n json) list \<Rightarrow> string \<Rightarrow> string" where
  "formatObject_loop N [] html = html"
| "formatObject_loop N ((key, val) # rest) html =
     formatObject_loop N rest (html @ formatEntry N key val)"

definition formatObject :: "'n number_ops \<Rightarrow> 'n json \<Rightarrow> error + string" where
  "formatObject N obj =
     (case Object_entries obj of
        Inl e \<Rightarrow> Inl e
      | Inr es \<Rightarrow> Inr (formatObject_loop N es []))"

subsection \<open>\<^verbatim>\<open>formatData\<close> (lines 192 to 208)\<close>

fun formatData_forEach :: "'n number_ops \<Rightarrow> 'n json list \<Rightarrow> string \<Rightarrow> error + string" where
  "formatData_forEach N [] html = Inr html"
| "formatData_forEach N (item # rest) html =
     (case formatObject N item of
        Inl e \<Rightarrow> Inl e
      | Inr s \<Rightarrow>
          formatData_forEach N rest
            (html @ ''<div class=\"result-card\">'' @ s @ ''</div>''))"

fun formatData :: "'n number_ops \<Rightarrow> 'n json \<Rightarrow> error + string" where
  "formatData N (JArr items) = formatData_forEach N items []"
| "formatData N JNull = formatObject N JNull"
| "formatData N (JObj kvs) = formatObject N (JObj kvs)"
| "formatData N v = Inr (''<p>'' @ toString N v @ ''</p>'')"

subsection \<open>\<^verbatim>\<open>formatSuccessResult\<close> (lines 161 to 190)\<close>

definition successBanner :: string where
  "successBanner =
     ''<div style=\"color: #27ae60; font-weight: 600; margin-bottom: 15px;\">''
     @ [CHR 0xE2, CHR 0x9C, CHR 0x85] @ '' Success</div>''"

text \<open>Lines 171 to 174: the copy of the envelope without \<^verbatim>\<open>status\<close> and \<^verbatim>\<open>success\<close>.\<close>

definition dataToShow :: "'n json \<Rightarrow> 'n json" where
  "dataToShow v =
     JObj (filter (\<lambda>(k, x). k \<noteq> ''status'' \<and> k \<noteq> ''success'') (ownProperties v))"

text \<open>Lines 177 to 187: the text appended when \<^verbatim>\<open>data.metadata\<close> is truthy.\<close>

definition metadataSection :: "'n number_ops \<Rightarrow> 'n json \<Rightarrow> string" where
  "metadataSection N m =
     ''<div style=\"margin-top: 15px; padding-top: 15px; border-top: 1px solid #ddd;\">''
     @ ''<strong>Metadata:</strong>''
     @ ''<pre style=\"margin-top: 10px;\">'' @ JSON_stringify N m @ ''</pre>''
     @ ''</div>''"

text \<open>Lines 165 to 175: the body, chosen by the truthiness of \<^verbatim>\<open>data\<close> and \<^verbatim>\<open>result\<close>.\<close>

definition successBody :: "'n number_ops \<Rightarrow> 'n json \<Rightarrow> error + string" where
  "successBody N v =
     (case getProp v ''data'' of
        Inl e \<Rightarrow> Inl e
      | Inr d \<Rightarrow>
          if truthy_opt N d then formatData N (the d)
          else (case getProp v ''result'' of
                  Inl e \<Rightarrow> Inl e
                | Inr r \<Rightarrow>
                    if truthy_opt N r then formatData N (the r)
                    else Inr (''<pre>'' @ JSON_stringify N (dataToShow v) @ ''</pre>'')))"

definition formatSuccessResult :: "'n number_ops \<Rightarrow> 'n json \<Rightarrow> error + string" where
  "formatSuccessResult N v =
     (case successBody N v of
        Inl e \<Rightarrow> Inl e
      | Inr body \<Rightarrow>
          (case getProp v ''metadata'' of
             Inl e \<Rightarrow> Inl e
           | Inr m \<Rightarrow>
               Inr (successBanner @ body
                    @ (if truthy_opt N m then metadataSection N (the m) else []))))"

subsection \<open>\<^verbatim>\<open>displayResult\<close> (lines 143 to 159)\<close>

text \<open>
  The result box is a DOM element; the function changes its class list and its
  \<^verbatim>\<open>innerHTML\<close>. The document maps element ids to elements. A call either returns or
  throws, and in both cases leaves a document behind: the class list is cleaned before
  the envelope is read.
\<close>

record element =
  classList :: "string list"
  innerHTML :: string

type_synonym document = "string \<Rightarrow> element option"

datatype outcome = Returns document | Throws error document

definition classList_remove :: "string list \<Rightarrow> string list \<Rightarrow> string list" where
  "classList_remove tokens cl = filter (\<lambda>t. t \<notin> set tokens) cl"

definition classList_add :: "string \<Rightarrow> string list \<Rightarrow> string list" where
  "classList_add t cl = (if t \<in> set cl then cl else cl @ [t])"

definition errorMessage :: "'n number_ops \<Rightarrow> 'n json \<Rightarrow> string" where
  "errorMessage N v =
     ''<p style=\"color: #e74c3c; font-weight: 600;\">''
     @ [CHR 0xE2, CHR 0x9D, CHR 0x8C] @ '' Error: '' @ toString N v @ ''</p>''"

text \<open>Line 154: the test that selects the success path.\<close>

definition isSuccess :: "'n number_ops \<Rightarrow> 'n json \<Rightarrow> error + bool" where
  "isSuccess N v =
     (case getProp v ''status'' of
        Inl e \<Rightarrow> Inl e
      | Inr st \<Rightarrow>
          if st = Some (JStr ''success'') then Inr True
          else (case getProp v ''success'' of
                  Inl e \<Rightarrow> Inl e
                | Inr su \<Rightarrow> Inr (truthy_opt N su)))"

definition displayResult ::
    "'n number_ops \<Rightarrow> document \<Rightarrow> string \<Rightarrow> 'n json \<Rightarrow> bool \<Rightarrow> outcome" where
  "displayResult N doc elementId v isError =
     (case doc elementId of
        None \<Rightarrow> Throws TypeError doc
      | Some resultBox \<Rightarrow>
          let box = resultBox\<lparr>classList := classList_remove [''loading'', ''error''] (classList resultBox)\<rparr>;
              doc1 = doc(elementId \<mapsto> box)
          in if isError then
               Returns (doc(elementId \<mapsto>
                 box\<lparr>classList := classList_add ''error'' (classList box),
                     innerHTML := errorMessage N v\<rparr>))
             else
               (case isSuccess N v of
                  Inl e \<Rightarrow> Throws e doc1
                | Inr True \<Rightarrow>
                    (case formatSuccessResult N v of
                       Inl e \<Rightarrow> Throws e doc1
                     | Inr html \<Rightarrow> Returns (doc(elementId \<mapsto> box\<lparr>innerHTML := html\<rparr>)))
                | Inr False \<Rightarrow>
                    Returns (doc(elementId \<mapsto>
                      box\<lparr>innerHTML := ''<pre>'' @ JSON_stringify N v @ ''</pre>''\<rparr>))))"

subsection \<open>Occurrences of a text in the output\<close>

text \<open>The number of positions of a string at which a non-empty pattern starts.\<close>

fun occurrences :: "string \<Rightarrow> string \<Rightarrow> nat" where
  "occurrences pat [] = 0"
| "occurrences pat (c # cs) =
     (if take (length pat) (c # cs) = pat then 1 else 0) + occurrences pat cs"

section \<open>Properties\<close>

subsection \<open>The loops as concatenations\<close>

lemma formatObject_loop_append:
  "formatObject_loop N es html = html @ concat (map (\<lambda>(k, v). formatEntry N k v) es)"
  by (induction es arbitrary: html) auto

lemma formatObject_JObj:
  "formatObject N (JObj kvs) = Inr (concat (map (\<lambda>(k, v). formatEntry N k v) kvs))"
  by (simp add: formatObject_def Object_entries_def formatObject_loop_append)

lemma formatObject_null: "formatObject N JNull = Inl TypeError"
  by (simp add: formatObject_def Object_entries_def)

lemma formatObject_not_null:
  "v \<noteq> JNull \<Longrightarrow>
   formatObject N v = Inr (concat (map (\<lambda>(k, x). formatEntry N k x) (ownProperties v)))"
  by (simp add: formatObject_def Object_entries_def formatObject_loop_append)

lemma formatData_forEach_null:
  "JNull \<in> set items \<Longrightarrow> formatData_forEach N items html = Inl TypeError"
proof (induction items arbitrary: html)
  case Nil
  then show ?case by simp
next
  case (Cons item rest)
  show ?case
  proof (cases "item = JNull")
    case True
    then show ?thesis by (simp add: formatObject_null)
  next
    case False
    with Cons.prems have "JNull \<in> set rest" by auto
    with Cons.IH False show ?thesis by (simp add: formatObject_not_null)
  qed
qed

lemma formatData_forEach_cards:
  "JNull \<notin> set items \<Longrightarrow>
   formatData_forEach N items html =
     Inr (html @ concat (map (\<lambda>item. ''<div class=\"result-card\">''
            @ concat (map (\<lambda>(k, x). formatEntry N k x) (ownProperties item))
            @ ''</div>'') items))"
proof (induction items arbitrary: html)
  case Nil
  then show ?case by simp
next
  case (Cons item rest)
  then have "item \<noteq> JNull" and "JNull \<notin> set rest" by auto
  with Cons.IH show ?case by (simp add: formatObject_not_null)
qed

lemma formatData_raises_iff:
  "formatData N v = Inl e \<longleftrightarrow> v = JNull \<or> (\<exists>items. v = JArr items \<and> JNull \<in> set items)"
proof (cases v)
  case (JArr items)
  then show ?thesis
    by (cases "JNull \<in> set items") (simp_all add: formatData_forEach_null formatData_forEach_cards, cases e, simp)
qed (simp_all add: formatObject_null formatObject_JObj, cases e, simp)

lemma join_member: "\<exists>p q. join sep (as @ a # bs) = p @ a @ q"
proof (induction as)
  case Nil
  show ?case
  proof (cases bs)
    case Nil
    have "join sep ([] @ [a]) = [] @ a @ []" by simp
    with Nil show ?thesis by blast
  next
    case (Cons b bs')
    have "join sep ([] @ a # b # bs') = [] @ a @ (sep @ join sep (b # bs'))" by simp
    with Cons show ?thesis by blast
  qed
next
  case (Cons x as)
  then obtain p q where pq: "join sep (as @ a # bs) = p @ a @ q" by blast
  obtain y ys where ys: "as @ a # bs = y # ys" by (cases as) auto
  have "join sep ((x # as) @ a # bs) = x @ sep @ join sep (as @ a # bs)"
    using ys by simp
  also have "\<dots> = (x @ sep @ p) @ a @ q" using pq by simp
  finally show ?case by blast
qed

lemma successBody_data:
  "map_of kvs ''data'' = Some d \<Longrightarrow> truthy N d \<Longrightarrow> successBody N (JObj kvs) = formatData N d"
  by (simp add: successBody_def)

lemma successBody_fallback:
  "\<not> truthy_opt N (map_of kvs ''data'') \<Longrightarrow> \<not> truthy_opt N (map_of kvs ''result'') \<Longrightarrow>
   successBody N (JObj kvs) = Inr (''<pre>'' @ JSON_stringify N (dataToShow (JObj kvs)) @ ''</pre>'')"
  by (simp add: successBody_def)

subsection \<open>When the renderer raises\<close>

lemma truthy_not_null: "truthy N v \<Longrightarrow> v \<noteq> JNull"
  by auto

lemma successBody_raises_iff:
  "successBody N (JObj kvs) = Inl e \<longleftrightarrow>
     (\<exists>items. JNull \<in> set items
        \<and> (map_of kvs ''data'' = Some (JArr items)
           \<or> \<not> truthy_opt N (map_of kvs ''data'') \<and> map_of kvs ''result'' = Some (JArr items)))"
proof (cases "truthy_opt N (map_of kvs ''data'')")
  case True
  then obtain d where d: "map_of kvs ''data'' = Some d" and td: "truthy N d"
    by (cases "map_of kvs ''data''") auto
  from td have "d \<noteq> JNull" by (rule truthy_not_null)
  with d td True show ?thesis
    by (auto simp: successBody_data formatData_raises_iff)
next
  case False
  note nodata = this
  show ?thesis
  proof (cases "truthy_opt N (map_of kvs ''result'')")
    case True
    then obtain r where r: "map_of kvs ''result'' = Some r" and tr: "truthy N r"
      by (cases "map_of kvs ''result''") auto
    from tr have "r \<noteq> JNull" by (rule truthy_not_null)
    moreover from nodata have "map_of kvs ''data'' \<noteq> Some (JArr items)" for items
      by auto
    ultimately show ?thesis
      using nodata r tr by (auto simp: successBody_def formatData_raises_iff)
  next
    case False
    then have "map_of kvs ''result'' \<noteq> Some (JArr items)" for items by auto
    moreover from nodata have "map_of kvs ''data'' \<noteq> Some (JArr items)" for items
      by auto
    ultimately show ?thesis
      using nodata False by (simp add: successBody_fallback)
  qed
qed

lemma formatSuccessResult_raises_iff:
  "formatSuccessResult N (JObj kvs) = Inl e \<longleftrightarrow> successBody N (JObj kvs) = Inl e"
  by (cases "successBody N (JObj kvs)") (simp_all add: formatSuccessResult_def)

text \<open>The top-level value \<^verbatim>\<open>null\<close>: reading \<^verbatim>\<open>data.status\<close> throws.\<close>

lemma displayResult_null_raises:
  "displayResult N (doc(eid \<mapsto> box)) eid JNull False
   = Throws TypeError
       (doc(eid \<mapsto> box\<lparr>classList := classList_remove [''loading'', ''error''] (classList box)\<rparr>))"
  by (simp add: displayResult_def isSuccess_def)

text \<open>
  Claim C1: for every JSON value, rendering through \<^verbatim>\<open>displayResult\<close> (with \<^verbatim>\<open>isError\<close>
  false) returns a string and never raises, also for arrays with \<^verbatim>\<open>null\<close> elements. The
  code does not do this. At the envelope \<^verbatim>\<open>{"status": "success", "data": [null]}\<close>,
  \<^verbatim>\<open>formatData\<close> passes the \<^verbatim>\<open>null\<close> element to \<^verbatim>\<open>formatObject\<close>, whose
  \<^verbatim>\<open>Object.entries(null)\<close> throws a \<^verbatim>\<open>TypeError\<close>: the call raises, and the result box keeps
  its old content. The lemmas above give every envelope on which the success path
  raises: those whose chosen body is an array with a \<^verbatim>\<open>null\<close> element.
\<close>

theorem C1_null_element_raises:
  "displayResult N (doc(eid \<mapsto> box)) eid
     (JObj [(''status'', JStr ''success''), (''data'', JArr [JNull])]) False
   = Throws TypeError
       (doc(eid \<mapsto> box\<lparr>classList := classList_remove [''loading'', ''error''] (classList box)\<rparr>))"
  by (simp add: displayResult_def isSuccess_def formatSuccessResult_def successBody_def
      formatObject_null)

subsection \<open>Choice of the success body\<close>

text \<open>
  Claim C2, as stated: whenever the envelope has both a \<^verbatim>\<open>data\<close> and a \<^verbatim>\<open>result\<close> field,
  the body is the rendering of \<^verbatim>\<open>data\<close>. Line 165 tests \<^verbatim>\<open>data.data\<close> for truthiness, not for
  presence: at \<^verbatim>\<open>{"success": true, "data": 0, "result": "x"}\<close> the body is the
  rendering of \<^verbatim>\<open>result\<close>.
\<close>

theorem C2_falsy_data_counterexample:
  "formatSuccessResult int_ops
     (JObj [(''success'', JBool True), (''data'', JNum 0), (''result'', JStr ''x'')])
     = Inr (successBanner @ ''<p>x</p>'')
   \<and> formatData int_ops (JNum 0) = Inr ''<p>0</p>''
   \<and> formatSuccessResult int_ops
     (JObj [(''success'', JBool True), (''data'', JNum 0), (''result'', JStr ''x'')])
     \<noteq> Inr (successBanner @ ''<p>0</p>'')"
  by (simp add: formatSuccessResult_def successBody_def int_ops_def decimal.simps)

text \<open>
  Claim C2, amended: for every envelope whose \<^verbatim>\<open>data\<close> field is truthy,
  \<^verbatim>\<open>formatSuccessResult\<close> renders the value of \<^verbatim>\<open>data\<close> as the body, and the \<^verbatim>\<open>result\<close>
  field is ignored: the output is the banner, \<^verbatim>\<open>formatData(data)\<close> and the metadata
  section, and any envelope with the same \<^verbatim>\<open>data\<close> and \<^verbatim>\<open>metadata\<close> gives the same
  output, whatever its \<^verbatim>\<open>result\<close>.
\<close>

theorem C2_truthy_data_precedes_result:
  assumes "map_of kvs ''data'' = Some d" and "truthy N d"
    and "map_of kvs' ''data'' = Some d"
    and "map_of kvs' ''metadata'' = map_of kvs ''metadata''"
  shows "formatSuccessResult N (JObj kvs) =
           (case formatData N d of
              Inl e \<Rightarrow> Inl e
            | Inr body \<Rightarrow>
                Inr (successBanner @ body
                     @ (if truthy_opt N (map_of kvs ''metadata'')
                        then metadataSection N (the (map_of kvs ''metadata'')) else [])))
         \<and> formatSuccessResult N (JObj kvs') = formatSuccessResult N (JObj kvs)"
  using assms by (cases "formatData N d") (simp_all add: formatSuccessResult_def successBody_data)

text \<open>An envelope with \<^verbatim>\<open>data\<close> and \<^verbatim>\<open>result\<close>, and the same envelope without \<^verbatim>\<open>result\<close>.\<close>

theorem C2_truthy_data_precedes_result_witness:
  "map_of [(''success'', JBool True), (''data'', JStr ''a''), (''result'', JStr ''b'')] ''data''
     = Some (JStr ''a'')
   \<and> truthy int_ops (JStr ''a'')
   \<and> map_of [(''data'', JStr ''a''), (''success'', JBool True)] ''data'' = Some (JStr ''a'')
   \<and> formatSuccessResult int_ops
        (JObj [(''success'', JBool True), (''data'', JStr ''a''), (''result'', JStr ''b'')])
       = Inr (successBanner @ ''<p>a</p>'')
   \<and> formatSuccessResult int_ops (JObj [(''data'', JStr ''a''), (''success'', JBool True)])
       = Inr (successBanner @ ''<p>a</p>'')"
  using C2_truthy_data_precedes_result
    [of "[(''success'', JBool True), (''data'', JStr ''a''), (''result'', JStr ''b'')]"
        "JStr ''a''" int_ops "[(''data'', JStr ''a''), (''success'', JBool True)]"]
  by simp

subsection \<open>The metadata section\<close>

text \<open>
  Claim C3, as stated: every mapping with a \<^verbatim>\<open>metadata\<close> field is rendered with its
  metadata under the label \<open>Metadata\<close>. Line 177 tests \<^verbatim>\<open>data.metadata\<close> for truthiness:
  at \<^verbatim>\<open>{"success": true, "data": "x", "metadata": false}\<close> the fragment is the banner
  and the body, and the label does not occur in it.
\<close>

theorem C3_falsy_metadata_counterexample:
  "formatSuccessResult int_ops
     (JObj [(''success'', JBool True), (''data'', JStr ''x''), (''metadata'', JBool False)])
     = Inr (successBanner @ ''<p>x</p>'')
   \<and> occurrences ''Metadata'' (successBanner @ ''<p>x</p>'') = 0"
  by (simp add: formatSuccessResult_def successBody_def successBanner_def)

text \<open>
  Claim C3, amended: for every envelope whose \<^verbatim>\<open>metadata\<close> field is truthy, wherever the
  field stands in the mapping, the fragment returned by \<^verbatim>\<open>formatSuccessResult\<close> is the
  banner, the body, and then the metadata section: a \<^verbatim>\<open>div\<close> with a top border, the
  fixed label \<open>Metadata:\<close> and the metadata pretty-printed as JSON. (When the body
  raises, so does the call.)
\<close>

theorem C3_truthy_metadata_section:
  assumes "map_of kvs ''metadata'' = Some m" and "truthy N m"
  shows "formatSuccessResult N (JObj kvs) =
           (case successBody N (JObj kvs) of
              Inl e \<Rightarrow> Inl e
            | Inr body \<Rightarrow>
                Inr (successBanner @ body
                     @ ''<div style=\"margin-top: 15px; padding-top: 15px; border-top: 1px solid #ddd;\">''
                     @ ''<strong>Metadata:</strong>''
                     @ ''<pre style=\"margin-top: 10px;\">'' @ JSON_stringify N m @ ''</pre>''
                     @ ''</div>''))"
  using assms by (simp add: formatSuccessResult_def metadataSection_def split: sum.splits)


text \<open>The \<^verbatim>\<open>metadata\<close> field first in the envelope; its section is still last.\<close>

theorem C3_truthy_metadata_section_witness:
  "map_of [(''metadata'', JObj [(''count'', JNum 3)]), (''success'', JBool True),
           (''result'', JStr ''ok'')] ''metadata'' = Some (JObj [(''count'', JNum 3)])
   \<and> truthy int_ops (JObj [(''count'', JNum 3)])
   \<and> formatSuccessResult int_ops
        (JObj [(''metadata'', JObj [(''count'', JNum 3)]), (''success'', JBool True),
               (''result'', JStr ''ok'')])
       = Inr (successBanner @ ''<p>ok</p>''
              @ ''<div style=\"margin-top: 15px; padding-top: 15px; border-top: 1px solid #ddd;\">''
              @ ''<strong>Metadata:</strong>''
              @ ''<pre style=\"margin-top: 10px;\">''
              @ ''{'' @ [CHR 0x0A] @ ''  \"count\": 3'' @ [CHR 0x0A] @ ''}''
              @ ''</pre>'' @ ''</div>'')"
  using C3_truthy_metadata_section
    [of "[(''metadata'', JObj [(''count'', JNum 3)]), (''success'', JBool True),
          (''result'', JStr ''ok'')]" "JObj [(''count'', JNum 3)]" int_ops]
  by (simp add: successBody_def JSON_stringify_def QuoteJSONString_def quoteChar_def
      int_ops_def decimal.simps)

lemma JSON_stringify_member:
  assumes "(k, v) \<in> set kvs"
  shows "\<exists>p q. JSON_stringify N (JObj kvs)
           = p @ QuoteJSONString k @ '': '' @ SerializeJSON N ''  '' v @ q"
proof -
  from assms obtain xs ys where kvs: "kvs = xs @ (k, v) # ys"
    by (auto dest: split_list)
  let ?f = "\<lambda>(k, v). QuoteJSONString k @ '': '' @ SerializeJSON N ''  '' v"
  obtain p q where
    "join ('','' @ [CHR 0x0A] @ ''  '') (map ?f xs @ ?f (k, v) # map ?f ys) = p @ ?f (k, v) @ q"
    using join_member by blast
  then have "JSON_stringify N (JObj kvs)
      = (''{'' @ [CHR 0x0A] @ ''  '' @ p) @ QuoteJSONString k @ '': '' @ SerializeJSON N ''  '' v
        @ (q @ [CHR 0x0A] @ ''}'')"
    by (simp add: JSON_stringify_def kvs)
  then show ?thesis by blast
qed

text \<open>
  Claim C10, as stated: every success envelope with a \<^verbatim>\<open>metadata\<close> field and neither
  \<^verbatim>\<open>data\<close> nor \<^verbatim>\<open>result\<close> shows the metadata twice. At
  \<^verbatim>\<open>{"success": true, "metadata": 0}\<close> the metadata is in the printed envelope only:
  there is no metadata section, and the label does not occur.
\<close>

theorem C10_falsy_metadata_counterexample:
  "formatSuccessResult int_ops (JObj [(''success'', JBool True), (''metadata'', JNum 0)])
     = Inr (successBanner
            @ ''<pre>{'' @ [CHR 0x0A] @ ''  \"metadata\": 0'' @ [CHR 0x0A] @ ''}</pre>'')
   \<and> occurrences ''Metadata''
        (successBanner
         @ ''<pre>{'' @ [CHR 0x0A] @ ''  \"metadata\": 0'' @ [CHR 0x0A] @ ''}</pre>'') = 0"
  by (simp add: formatSuccessResult_def successBody_def successBanner_def dataToShow_def
      JSON_stringify_def QuoteJSONString_def quoteChar_def int_ops_def decimal.simps)

text \<open>
  Claim C10, amended: for every envelope with a truthy \<^verbatim>\<open>metadata\<close> field and neither a
  \<^verbatim>\<open>data\<close> nor a \<^verbatim>\<open>result\<close> field, the metadata appears twice in the fragment: as the
  member \<^verbatim>\<open>"metadata": ...\<close> of the pretty-printed envelope (the envelope without its
  \<^verbatim>\<open>status\<close> and \<^verbatim>\<open>success\<close> fields), and again in the metadata section.
\<close>

theorem C10_truthy_metadata_twice:
  assumes "map_of kvs ''data'' = None" and "map_of kvs ''result'' = None"
    and "map_of kvs ''metadata'' = Some m" and "truthy N m"
  shows "\<exists>p q.
           JSON_stringify N (JObj (filter (\<lambda>(k, x). k \<noteq> ''status'' \<and> k \<noteq> ''success'') kvs))
             = p @ ''\"metadata\": '' @ SerializeJSON N ''  '' m @ q
         \<and> formatSuccessResult N (JObj kvs)
             = Inr (successBanner
                    @ ''<pre>'' @ p @ ''\"metadata\": '' @ SerializeJSON N ''  '' m @ q @ ''</pre>''
                    @ ''<div style=\"margin-top: 15px; padding-top: 15px; border-top: 1px solid #ddd;\">''
                    @ ''<strong>Metadata:</strong>''
                    @ ''<pre style=\"margin-top: 10px;\">'' @ JSON_stringify N m @ ''</pre>''
                    @ ''</div>'')"
proof -
  let ?shown = "filter (\<lambda>(k, x). k \<noteq> ''status'' \<and> k \<noteq> ''success'') kvs"
  have "(''metadata'', m) \<in> set kvs"
    using assms(3) by (rule map_of_SomeD)
  then have "(''metadata'', m) \<in> set ?shown" by simp
  then obtain p q where pq: "JSON_stringify N (JObj ?shown)
      = p @ QuoteJSONString ''metadata'' @ '': '' @ SerializeJSON N ''  '' m @ q"
    using JSON_stringify_member by blast
  have quoted: "QuoteJSONString ''metadata'' @ '': '' = ''\"metadata\": ''"
    by (simp add: QuoteJSONString_def quoteChar_def)
  have body: "successBody N (JObj kvs) = Inr (''<pre>'' @ JSON_stringify N (JObj ?shown) @ ''</pre>'')"
    using assms(1,2) by (simp add: successBody_fallback dataToShow_def)
  have "formatSuccessResult N (JObj kvs)
      = Inr (successBanner @ ''<pre>'' @ JSON_stringify N (JObj ?shown) @ ''</pre>''
             @ metadataSection N m)"
    using assms(3,4) by (simp add: formatSuccessResult_def body)
  with pq quoted show ?thesis
    by (simp add: metadataSection_def) blast
qed

text \<open>The metadata \<^verbatim>\<open>{"count": 3}\<close>, printed once at depth one and once at depth zero.\<close>

theorem C10_truthy_metadata_twice_witness:
  "map_of [(''status'', JStr ''success''), (''metadata'', JObj [(''count'', JNum 3)]),
           (''note'', JStr ''n'')] ''data'' = None
   \<and> map_of [(''status'', JStr ''success''), (''metadata'', JObj [(''count'', JNum 3)]),
             (''note'', JStr ''n'')] ''result'' = None
   \<and> map_of [(''status'', JStr ''success''), (''metadata'', JObj [(''count'', JNum 3)]),
             (''note'', JStr ''n'')] ''metadata'' = Some (JObj [(''count'', JNum 3)])
   \<and> truthy int_ops (JObj [(''count'', JNum 3)])
   \<and> formatSuccessResult int_ops
        (JObj [(''status'', JStr ''success''), (''metadata'', JObj [(''count'', JNum 3)]),
               (''note'', JStr ''n'')])
       = Inr (successBanner
              @ ''<pre>{'' @ [CHR 0x0A]
              @ ''  \"metadata\": {'' @ [CHR 0x0A]
              @ ''    \"count\": 3'' @ [CHR 0x0A]
              @ ''  },'' @ [CHR 0x0A]
              @ ''  \"note\": \"n\"'' @ [CHR 0x0A]
              @ ''}</pre>''
              @ ''<div style=\"margin-top: 15px; padding-top: 15px; border-top: 1px solid #ddd;\">''
              @ ''<strong>Metadata:</strong>''
              @ ''<pre style=\"margin-top: 10px;\">''
              @ ''{'' @ [CHR 0x0A] @ ''  \"count\": 3'' @ [CHR 0x0A] @ ''}''
              @ ''</pre>'' @ ''</div>'')"
  using C10_truthy_metadata_twice
    [of "[(''status'', JStr ''success''), (''metadata'', JObj [(''count'', JNum 3)]),
          (''note'', JStr ''n'')]" "JObj [(''count'', JNum 3)]" int_ops]
  by (simp add: formatSuccessResult_def successBody_def dataToShow_def metadataSection_def
      JSON_stringify_def QuoteJSONString_def quoteChar_def int_ops_def decimal.simps)


subsection \<open>Entries of a rendered mapping\<close>

text \<open>
  Claim C4: for every key of a rendered mapping whose value is an array or an object,
  \<^verbatim>\<open>formatObject\<close> renders the humanized key as a heading, followed by the value
  pretty-printed as an indented JSON block. Keys inside the value are not humanized:
  the block is \<^verbatim>\<open>JSON.stringify(value, null, 2)\<close>, in which a nested key \<open>k'\<close> stands as the
  quoted string \<open>QuoteJSONString k'\<close>.
\<close>

theorem C4_nested_value_block:
  "formatObject N (JObj (before @ (key, JArr xs) # after)) =
     Inr (concat (map (\<lambda>(k, v). formatEntry N k v) before)
          @ ''<div style=\"margin: 10px 0;\"><strong>'' @ formattedKey key @ '':</strong></div>''
          @ ''<pre style=\"background: white; padding: 10px; border-radius: 5px;\">''
          @ JSON_stringify N (JArr xs) @ ''</pre>''
          @ concat (map (\<lambda>(k, v). formatEntry N k v) after))
   \<and> formatObject N (JObj (before @ (key, JObj ms) # after)) =
     Inr (concat (map (\<lambda>(k, v). formatEntry N k v) before)
          @ ''<div style=\"margin: 10px 0;\"><strong>'' @ formattedKey key @ '':</strong></div>''
          @ ''<pre style=\"background: white; padding: 10px; border-radius: 5px;\">''
          @ JSON_stringify N (JObj ms) @ ''</pre>''
          @ concat (map (\<lambda>(k, v). formatEntry N k v) after))
   \<and> (\<exists>p q. JSON_stringify N (JObj (ms1 @ (k', v') # ms2)) =
          p @ QuoteJSONString k' @ '': '' @ SerializeJSON N ''  '' v' @ q)"
proof -
  have "(k', v') \<in> set (ms1 @ (k', v') # ms2)" by simp
  then have "\<exists>p q. JSON_stringify N (JObj (ms1 @ (k', v') # ms2)) =
      p @ QuoteJSONString k' @ '': '' @ SerializeJSON N ''  '' v' @ q"
    by (rule JSON_stringify_member)
  then show ?thesis
    by (simp add: formatObject_JObj formatEntry_def)
qed

text \<open>The key \<^verbatim>\<open>total_routes\<close> is humanized, the nested key \<^verbatim>\<open>min_cost\<close> is not.\<close>

theorem C4_nested_value_block_witness:
  "formatObject int_ops (JObj [(''total_routes'', JObj [(''min_cost'', JNum 4)])]) =
     Inr (''<div style=\"margin: 10px 0;\"><strong>Total Routes:</strong></div>''
          @ ''<pre style=\"background: white; padding: 10px; border-radius: 5px;\">''
          @ ''{'' @ [CHR 0x0A] @ ''  \"min_cost\": 4'' @ [CHR 0x0A] @ ''}''
          @ ''</pre>'')"
  using C4_nested_value_block [of int_ops "[]" "''total_routes''" "[]" "[]"
      "[(''min_cost'', JNum 4)]" "[]" "''min_cost''" "JNum 4" "[]"]
  by (simp add: formattedKey_def replaceUnderscores_def isWordChar_def toUpperCase_def
      JSON_stringify_def QuoteJSONString_def quoteChar_def int_ops_def decimal.simps)

text \<open>
  Claim C8: for every key of a rendered mapping whose value is \<^verbatim>\<open>null\<close>, \<^verbatim>\<open>formatObject\<close>
  renders the single line \<open>Humanized Key: null\<close>, a paragraph and not a JSON block.
\<close>

theorem C8_null_value_line:
  "formatObject N (JObj (before @ (key, JNull) # after)) =
     Inr (concat (map (\<lambda>(k, v). formatEntry N k v) before)
          @ ''<p><strong>'' @ formattedKey key @ '':</strong> null</p>''
          @ concat (map (\<lambda>(k, v). formatEntry N k v) after))"
  by (simp add: formatObject_JObj formatEntry_def)

text \<open>A string value and a \<^verbatim>\<open>null\<close> value, one line each.\<close>

theorem C8_null_value_line_witness:
  "formatObject int_ops (JObj [(''city'', JStr ''Beirut''), (''old_name'', JNull)]) =
     Inr (''<p><strong>City:</strong> Beirut</p><p><strong>Old Name:</strong> null</p>'')"
  using C8_null_value_line [of int_ops "[(''city'', JStr ''Beirut'')]" "''old_name''" "[]"]
  by (simp add: formatEntry_def formattedKey_def replaceUnderscores_def isWordChar_def
      toUpperCase_def)


subsection \<open>Key humanization\<close>

lemma length_upcaseWordStarts: "length (upcaseWordStarts prev s) = length s"
  by (induction s arbitrary: prev) auto

lemma nth_upcaseWordStarts:
  "i < length s \<Longrightarrow>
   upcaseWordStarts prev s ! i =
     (if isWordChar (s ! i) \<and> \<not> (if i = 0 then prev else isWordChar (s ! (i - 1)))
      then toUpperCase (s ! i) else s ! i)"
proof (induction s arbitrary: prev i)
  case Nil
  then show ?case by simp
next
  case (Cons c cs)
  show ?case
  proof (cases i)
    case 0
    then show ?thesis by simp
  next
    case (Suc j)
    with Cons.prems have "j < length cs" by simp
    from Cons.IH [OF this, of "isWordChar c"] Suc show ?thesis
      by (cases j) simp_all
  qed
qed

lemma upcaseWordStarts_inside_word:
  "\<forall>c \<in> set s. isWordChar c \<Longrightarrow> upcaseWordStarts True s = s"
  by (induction s) auto

lemma replaceUnderscores_none:
  "CHR ''_'' \<notin> set key \<Longrightarrow> replaceUnderscores key = key"
  by (induction key) (auto simp: replaceUnderscores_def)

text \<open>
  Claim C5, as stated: a key without underscores differs from its humanized form only
  in its first letter. \<^verbatim>\<open>\b\w\<close> matches after every character that is not a word
  character, not only after a space: the key \<^verbatim>\<open>first-name\<close> has no underscore and becomes
  \<^verbatim>\<open>First-Name\<close>, with a second capital at index 6.
\<close>

theorem C5_hyphen_counterexample:
  "CHR ''_'' \<notin> set ''first-name''
   \<and> formattedKey ''first-name'' = ''First-Name''
   \<and> formattedKey ''first-name'' ! 6 \<noteq> ''first-name'' ! 6"
  by (simp add: formattedKey_def replaceUnderscores_def isWordChar_def toUpperCase_def)

text \<open>
  Claim C5, amended: key humanization is a function of the key string alone. It keeps
  the length, replaces every underscore with a space, and then upper-cases every word
  character (ASCII letter or digit; upper-casing leaves a digit as it is) that is first
  in the string or follows a character that is not a word character; every other
  character is unchanged. So \<^verbatim>\<open>min_intensity\<close> becomes \<^verbatim>\<open>Min Intensity\<close> and \<^verbatim>\<open>origin\<close>
  becomes \<^verbatim>\<open>Origin\<close>, and a key made of ASCII letters and digits only differs from its
  humanized form only in its first character, which is upper-cased.
\<close>

theorem C5_formattedKey:
  "length (formattedKey key) = length key
   \<and> (\<forall>i < length key.
         formattedKey key ! i =
           (let spaced = (\<lambda>j. if key ! j = CHR ''_'' then CHR '' '' else key ! j)
            in if isWordChar (spaced i) \<and> (i = 0 \<or> \<not> isWordChar (spaced (i - 1)))
               then toUpperCase (spaced i) else spaced i))
   \<and> formattedKey ''min_intensity'' = ''Min Intensity''
   \<and> formattedKey ''origin'' = ''Origin''
   \<and> ((\<forall>c \<in> set key. isWordChar c \<and> c \<noteq> CHR ''_'') \<longrightarrow>
         formattedKey key = (case key of [] \<Rightarrow> [] | c # cs \<Rightarrow> toUpperCase c # cs))"
proof -
  have len: "length (formattedKey key) = length key"
    by (simp add: formattedKey_def length_upcaseWordStarts replaceUnderscores_def)
  have nth: "formattedKey key ! i =
           (let spaced = (\<lambda>j. if key ! j = CHR ''_'' then CHR '' '' else key ! j)
            in if isWordChar (spaced i) \<and> (i = 0 \<or> \<not> isWordChar (spaced (i - 1)))
               then toUpperCase (spaced i) else spaced i)"
    if "i < length key" for i
  proof -
    from that have "i < length (replaceUnderscores key)"
      by (simp add: replaceUnderscores_def)
    from nth_upcaseWordStarts [OF this, of False] that show ?thesis
      by (cases i) (simp_all add: formattedKey_def replaceUnderscores_def Let_def)
  qed
  have ex1: "formattedKey ''min_intensity'' = ''Min Intensity''"
    by (simp add: formattedKey_def replaceUnderscores_def isWordChar_def toUpperCase_def)
  have ex2: "formattedKey ''origin'' = ''Origin''"
    by (simp add: formattedKey_def replaceUnderscores_def isWordChar_def toUpperCase_def)
  have word: "formattedKey key = (case key of [] \<Rightarrow> [] | c # cs \<Rightarrow> toUpperCase c # cs)"
    if all: "\<forall>c \<in> set key. isWordChar c \<and> c \<noteq> CHR ''_''"
  proof (cases key)
    case Nil
    then show ?thesis by (simp add: formattedKey_def replaceUnderscores_def)
  next
    case (Cons c cs)
    from all have "CHR ''_'' \<notin> set key" by auto
    then have "replaceUnderscores key = key" by (rule replaceUnderscores_none)
    moreover from all Cons have "isWordChar c" and "\<forall>c \<in> set cs. isWordChar c" by auto
    ultimately show ?thesis
      using Cons by (simp add: formattedKey_def upcaseWordStarts_inside_word)
  qed
  from len nth ex1 ex2 word show ?thesis by blast
qed

text \<open>A key of letters and digits.\<close>

theorem C5_formattedKey_witness:
  "length (formattedKey ''pm25'') = 4
   \<and> formattedKey ''pm25'' ! 0 = CHR ''P''
   \<and> formattedKey ''pm25'' = ''Pm25''"
  using C5_formattedKey [of "''pm25''"]
  by (simp add: isWordChar_def toUpperCase_def)


subsection \<open>The two paths of \<^verbatim>\<open>displayResult\<close>\<close>

text \<open>
  Claim C7: for every envelope in which \<^verbatim>\<open>data\<close> and \<^verbatim>\<open>result\<close> are absent and \<^verbatim>\<open>status\<close> and
  \<^verbatim>\<open>success\<close> are both falsy or absent, \<^verbatim>\<open>displayResult\<close> (with \<^verbatim>\<open>isError\<close> false, on an
  existing result box) writes the whole envelope as pretty-printed JSON inside a
  \<^verbatim>\<open>pre\<close> element.
\<close>

theorem C7_raw_json_fallback:
  assumes "doc eid = Some box"
    and "map_of kvs ''data'' = None" and "map_of kvs ''result'' = None"
    and "\<not> truthy_opt N (map_of kvs ''status'')"
    and "\<not> truthy_opt N (map_of kvs ''success'')"
  shows "displayResult N doc eid (JObj kvs) False =
           Returns (doc(eid \<mapsto>
             box\<lparr>classList := classList_remove [''loading'', ''error''] (classList box),
                 innerHTML := ''<pre>'' @ JSON_stringify N (JObj kvs) @ ''</pre>''\<rparr>))"
proof -
  from assms(4) have "map_of kvs ''status'' \<noteq> Some (JStr ''success'')" by auto
  with assms(5) have "isSuccess N (JObj kvs) = Inr False"
    by (simp add: isSuccess_def)
  with assms(1) show ?thesis
    by (simp add: displayResult_def)
qed

text \<open>Scenario D of the specification: the envelope \<^verbatim>\<open>{"weird_field": "x"}\<close>.\<close>

theorem C7_raw_json_fallback_witness:
  "[''r'' \<mapsto> \<lparr>classList = [''result-box'', ''loading''], innerHTML = []\<rparr>] ''r''
     = Some \<lparr>classList = [''result-box'', ''loading''], innerHTML = []\<rparr>
   \<and> map_of [(''weird_field'', JStr ''x'')] ''data'' = None
   \<and> map_of [(''weird_field'', JStr ''x'')] ''result'' = None
   \<and> \<not> truthy_opt int_ops (map_of [(''weird_field'', JStr ''x'')] ''status'')
   \<and> \<not> truthy_opt int_ops (map_of [(''weird_field'', JStr ''x'')] ''success'')
   \<and> displayResult int_ops [''r'' \<mapsto> \<lparr>classList = [''result-box'', ''loading''], innerHTML = []\<rparr>]
        ''r'' (JObj [(''weird_field'', JStr ''x'')]) False
      = Returns [''r'' \<mapsto> \<lparr>classList = [''result-box''],
           innerHTML = ''<pre>{'' @ [CHR 0x0A] @ ''  \"weird_field\": \"x\"'' @ [CHR 0x0A]
                       @ ''}</pre>''\<rparr>]"
  using C7_raw_json_fallback
    [of "[''r'' \<mapsto> \<lparr>classList = [''result-box'', ''loading''], innerHTML = []\<rparr>]" "''r''"
        "\<lparr>classList = [''result-box'', ''loading''], innerHTML = []\<rparr>"
        "[(''weird_field'', JStr ''x'')]" int_ops]
  by (simp add: classList_remove_def JSON_stringify_def QuoteJSONString_def quoteChar_def)


subsection \<open>Counting result cards\<close>

lemma occurrences_skip:
  "c \<notin> set u \<Longrightarrow> occurrences (c # p) (u @ t) = occurrences (c # p) t"
  by (induction u) auto

lemma occurrences_prefix:
  assumes "c \<notin> set p"
  shows "occurrences (c # p) ((c # p) @ t) = Suc (occurrences (c # p) t)"
  using occurrences_skip [OF assms, of p t] by simp

lemma take_pattern_append:
  assumes "c \<notin> set p"
  shows "take (length (c # p)) ((x # a) @ c # t) = c # p \<longleftrightarrow> take (length (c # p)) (x # a) = c # p"
proof (cases "length (c # p) \<le> length (x # a)")
  case True
  then show ?thesis by simp
next
  case False
  then have short: "length a < length p" by simp
  have "take (length (c # p)) ((x # a) @ c # t) \<noteq> c # p"
  proof
    assume eq: "take (length (c # p)) ((x # a) @ c # t) = c # p"
    then have "take (length p) (a @ c # t) = p" by simp
    then have "take (length p) (a @ c # t) ! length a = p ! length a" by simp
    with short have "c = p ! length a" by (simp add: nth_append)
    with short have "c \<in> set p" by simp
    with assms show False by contradiction
  qed
  moreover have "take (length (c # p)) (x # a) \<noteq> c # p"
  proof
    assume "take (length (c # p)) (x # a) = c # p"
    then have "length (take (length (c # p)) (x # a)) = length (c # p)" by simp
    with short show False by simp
  qed
  ultimately show ?thesis by blast
qed

lemma occurrences_append:
  assumes "c \<notin> set p"
  shows "occurrences (c # p) (a @ c # t) = occurrences (c # p) a + occurrences (c # p) (c # t)"
proof (induction a)
  case Nil
  show ?case by simp
next
  case (Cons x a)
  have "occurrences (c # p) ((x # a) @ c # t)
      = (if take (length (c # p)) ((x # a) @ c # t) = c # p then 1 else 0)
        + occurrences (c # p) (a @ c # t)"
    by simp
  also have "\<dots> = (if take (length (c # p)) (x # a) = c # p then 1 else 0)
        + occurrences (c # p) (a @ c # t)"
    using take_pattern_append [OF assms] by simp
  finally show ?case using Cons.IH by simp
qed

lemma occurrences_cards:
  assumes "c \<notin> set p" and "c \<notin> set q" and "p \<noteq> []" and "q \<noteq> []" and "hd p \<noteq> hd q"
  shows "occurrences (c # p) (concat (map (\<lambda>body. (c # p) @ body @ (c # q)) bodies))
           = length bodies + sum_list (map (occurrences (c # p)) bodies)"
proof (induction bodies)
  case Nil
  show ?case by simp
next
  case (Cons b bs)
  let ?rest = "concat (map (\<lambda>body. (c # p) @ body @ (c # q)) bs)"
  obtain p0 p' where p: "p = p0 # p'" using assms(3) by (cases p) auto
  obtain q0 q' where q: "q = q0 # q'" using assms(4) by (cases q) auto
  from assms(5) p q have ne: "p0 \<noteq> q0" by simp
  have closing: "occurrences (c # p) (c # q @ ?rest) = occurrences (c # p) ?rest"
  proof -
    have "take (length (c # p)) (c # q @ ?rest) \<noteq> c # p"
      using ne by (simp add: p q)
    then have "occurrences (c # p) (c # q @ ?rest) = occurrences (c # p) (q @ ?rest)"
      by simp
    also have "\<dots> = occurrences (c # p) ?rest"
      using assms(2) by (rule occurrences_skip)
    finally show ?thesis .
  qed
  have "occurrences (c # p) (concat (map (\<lambda>body. (c # p) @ body @ (c # q)) (b # bs)))
      = occurrences (c # p) ((c # p) @ (b @ c # q @ ?rest))"
    by simp
  also have "\<dots> = Suc (occurrences (c # p) (b @ c # q @ ?rest))"
    using assms(1) by (rule occurrences_prefix)
  also have "\<dots> = Suc (occurrences (c # p) b + occurrences (c # p) (c # q @ ?rest))"
    using occurrences_append [OF assms(1)] by simp
  finally show ?case using closing Cons.IH by simp
qed

lemma occurrences_result_cards:
  "occurrences ''<div class=\"result-card\">''
     (concat (map (\<lambda>body. ''<div class=\"result-card\">'' @ body @ ''</div>'') bodies))
   = length bodies + sum_list (map (occurrences ''<div class=\"result-card\">'') bodies)"
  using occurrences_cards [of "CHR ''<''" "''div class=\"result-card\">''" "''/div>''" bodies]
  by simp


text \<open>
  Claim C6, as stated: the number of result cards in the output of \<^verbatim>\<open>formatData\<close> on a
  sequence equals its length. Values are inserted into the HTML unescaped, so a value
  can carry a card of its own: the one-element sequence
  \<^verbatim>\<open>[{"a": "<div class=\"result-card\">"}]\<close> gives an output with two card opening tags.
\<close>

theorem C6_injected_card_counterexample:
  "formatData int_ops (JArr [JObj [(''a'', JStr ''<div class=\"result-card\">'')]])
     = Inr (''<div class=\"result-card\">''
            @ ''<p><strong>A:</strong> <div class=\"result-card\"></p>''
            @ ''</div>'')
   \<and> occurrences ''<div class=\"result-card\">''
        (''<div class=\"result-card\">''
         @ ''<p><strong>A:</strong> <div class=\"result-card\"></p>''
         @ ''</div>'') = 2
   \<and> length [JObj [(''a'', JStr ''<div class=\"result-card\">'')]] = 1"
  by (simp add: formatObject_JObj formatEntry_def formattedKey_def replaceUnderscores_def
      isWordChar_def toUpperCase_def)

text \<open>
  Claim C6, amended: for every sequence without \<^verbatim>\<open>null\<close> elements, \<^verbatim>\<open>formatData\<close> returns
  exactly one result card per element, in order: the concatenation of \<open>length items\<close>
  texts, the \<open>i\<close>-th being the card opening tag, the \<^verbatim>\<open>formatObject\<close> rendering of the
  \<open>i\<close>-th element and \<^verbatim>\<open></div>\<close>. The card opening tag occurs in the output
  \<open>length items\<close> times plus the times it occurs inside the element renderings. An
  empty sequence gives the empty string: zero cards and no empty-state message.
\<close>

theorem C6_one_card_per_element:
  "(JNull \<notin> set items \<longrightarrow>
     (\<exists>bodies. length bodies = length items
        \<and> (\<forall>i < length items. formatObject N (items ! i) = Inr (bodies ! i))
        \<and> formatData N (JArr items) =
            Inr (concat (map (\<lambda>body. ''<div class=\"result-card\">'' @ body @ ''</div>'') bodies))
        \<and> occurrences ''<div class=\"result-card\">''
            (concat (map (\<lambda>body. ''<div class=\"result-card\">'' @ body @ ''</div>'') bodies))
            = length items + sum_list (map (occurrences ''<div class=\"result-card\">'') bodies)))
   \<and> formatData N (JArr []) = Inr []"
proof -
  let ?body = "\<lambda>item. concat (map (\<lambda>(k, x). formatEntry N k x) (ownProperties item))"
  let ?card = "\<lambda>body. ''<div class=\"result-card\">'' @ body @ ''</div>''"
  have "\<exists>bodies. length bodies = length items
        \<and> (\<forall>i < length items. formatObject N (items ! i) = Inr (bodies ! i))
        \<and> formatData N (JArr items) = Inr (concat (map ?card bodies))
        \<and> occurrences ''<div class=\"result-card\">'' (concat (map ?card bodies))
            = length items + sum_list (map (occurrences ''<div class=\"result-card\">'') bodies)"
    if nonull: "JNull \<notin> set items"
  proof -
    have len: "length (map ?body items) = length items" by simp
    have each: "\<forall>i < length items. formatObject N (items ! i) = Inr (map ?body items ! i)"
    proof (intro allI impI)
      fix i assume i: "i < length items"
      with nonull have "items ! i \<noteq> JNull" by (metis nth_mem)
      with i show "formatObject N (items ! i) = Inr (map ?body items ! i)"
        by (simp add: formatObject_not_null)
    qed
    have out: "formatData N (JArr items) = Inr (concat (map ?card (map ?body items)))"
      using nonull by (simp add: formatData_forEach_cards comp_def)
    have count: "occurrences ''<div class=\"result-card\">'' (concat (map ?card (map ?body items)))
        = length items
          + sum_list (map (occurrences ''<div class=\"result-card\">'') (map ?body items))"
      using occurrences_result_cards [of "map ?body items"] by (simp only: len)
    from len each out count show ?thesis by blast
  qed
  moreover have "formatData N (JArr []) = Inr []" by simp
  ultimately show ?thesis by blast
qed

text \<open>Scenario B of the specification: two cities, two cards.\<close>

theorem C6_one_card_per_element_witness:
  "JNull \<notin> set [JObj [(''city'', JStr ''Beirut'')], JObj [(''city'', JStr ''Tripoli'')]]
   \<and> formatData int_ops (JArr [JObj [(''city'', JStr ''Beirut'')], JObj [(''city'', JStr ''Tripoli'')]])
     = Inr (''<div class=\"result-card\">'' @ ''<p><strong>City:</strong> Beirut</p>'' @ ''</div>''
            @ ''<div class=\"result-card\">'' @ ''<p><strong>City:</strong> Tripoli</p>'' @ ''</div>'')
   \<and> occurrences ''<div class=\"result-card\">''
         (''<div class=\"result-card\">'' @ ''<p><strong>City:</strong> Beirut</p>'' @ ''</div>''
          @ ''<div class=\"result-card\">'' @ ''<p><strong>City:</strong> Tripoli</p>'' @ ''</div>'')
       = 2
   \<and> formatData int_ops (JArr []) = Inr []"
  using C6_one_card_per_element
    [of "[JObj [(''city'', JStr ''Beirut'')], JObj [(''city'', JStr ''Tripoli'')]]" int_ops]
  by (simp add: formatObject_JObj formatEntry_def formattedKey_def replaceUnderscores_def
      isWordChar_def toUpperCase_def)


subsection \<open>Selection of the success path\<close>

lemma formatSuccessResult_banner:
  "formatSuccessResult N v = Inr html \<Longrightarrow> \<exists>rest. html = successBanner @ rest"
  by (auto simp: formatSuccessResult_def split: sum.splits)

lemma formatSuccessResult_starts:
  assumes "formatSuccessResult N v = Inr html"
  shows "take 2 html = ''<d''"
proof -
  from assms obtain rest where "html = successBanner @ rest"
    using formatSuccessResult_banner by blast
  then show ?thesis by (simp add: successBanner_def)
qed

text \<open>
  Claim C9: on an envelope (with \<^verbatim>\<open>isError\<close> false and an existing result box),
  \<^verbatim>\<open>displayResult\<close> takes the success path, writing \<^verbatim>\<open>formatSuccessResult(data)\<close>, if and
  only if \<^verbatim>\<open>status\<close> is the string \<^verbatim>\<open>success\<close> or \<^verbatim>\<open>success\<close> is truthy; otherwise it writes
  the raw JSON. The two paths never give the same outcome, so the outcome tells the
  path.
\<close>

theorem C9_success_path_selection:
  assumes "doc eid = Some box"
  shows "displayResult N doc eid (JObj kvs) False =
           (if map_of kvs ''status'' = Some (JStr ''success'')
               \<or> truthy_opt N (map_of kvs ''success'')
            then (case formatSuccessResult N (JObj kvs) of
                    Inl e \<Rightarrow>
                      Throws e (doc(eid \<mapsto>
                        box\<lparr>classList := classList_remove [''loading'', ''error''] (classList box)\<rparr>))
                  | Inr html \<Rightarrow>
                      Returns (doc(eid \<mapsto>
                        box\<lparr>classList := classList_remove [''loading'', ''error''] (classList box),
                            innerHTML := html\<rparr>)))
            else Returns (doc(eid \<mapsto>
                   box\<lparr>classList := classList_remove [''loading'', ''error''] (classList box),
                       innerHTML := ''<pre>'' @ JSON_stringify N (JObj kvs) @ ''</pre>''\<rparr>)))
         \<and> (case formatSuccessResult N (JObj kvs) of
               Inl e \<Rightarrow>
                 Throws e (doc(eid \<mapsto>
                   box\<lparr>classList := classList_remove [''loading'', ''error''] (classList box)\<rparr>))
             | Inr html \<Rightarrow>
                 Returns (doc(eid \<mapsto>
                   box\<lparr>classList := classList_remove [''loading'', ''error''] (classList box),
                       innerHTML := html\<rparr>)))
           \<noteq> Returns (doc(eid \<mapsto>
                   box\<lparr>classList := classList_remove [''loading'', ''error''] (classList box),
                       innerHTML := ''<pre>'' @ JSON_stringify N (JObj kvs) @ ''</pre>''\<rparr>))"
proof -
  let ?cl = "classList_remove [''loading'', ''error''] (classList box)"
  let ?raw = "''<pre>'' @ JSON_stringify N (JObj kvs) @ ''</pre>''"
  have sel: "isSuccess N (JObj kvs) =
      Inr (map_of kvs ''status'' = Some (JStr ''success'') \<or> truthy_opt N (map_of kvs ''success''))"
    by (simp add: isSuccess_def)
  have path: "displayResult N doc eid (JObj kvs) False =
      (if map_of kvs ''status'' = Some (JStr ''success'') \<or> truthy_opt N (map_of kvs ''success'')
       then (case formatSuccessResult N (JObj kvs) of
               Inl e \<Rightarrow> Throws e (doc(eid \<mapsto> box\<lparr>classList := ?cl\<rparr>))
             | Inr html \<Rightarrow> Returns (doc(eid \<mapsto> box\<lparr>classList := ?cl, innerHTML := html\<rparr>)))
       else Returns (doc(eid \<mapsto> box\<lparr>classList := ?cl, innerHTML := ?raw\<rparr>)))"
    using assms by (cases "formatSuccessResult N (JObj kvs)") (simp_all add: displayResult_def sel)
  have differ: "(case formatSuccessResult N (JObj kvs) of
               Inl e \<Rightarrow> Throws e (doc(eid \<mapsto> box\<lparr>classList := ?cl\<rparr>))
             | Inr html \<Rightarrow> Returns (doc(eid \<mapsto> box\<lparr>classList := ?cl, innerHTML := html\<rparr>)))
           \<noteq> Returns (doc(eid \<mapsto> box\<lparr>classList := ?cl, innerHTML := ?raw\<rparr>))"
  proof (cases "formatSuccessResult N (JObj kvs)")
    case (Inl e)
    then show ?thesis by simp
  next
    case (Inr html)
    then have "take 2 html = ''<d''" by (rule formatSuccessResult_starts)
    moreover have "take 2 ?raw = ''<p''" by simp
    ultimately have neq: "html \<noteq> ?raw" by auto
    have "doc(eid \<mapsto> box\<lparr>classList := ?cl, innerHTML := html\<rparr>)
        \<noteq> doc(eid \<mapsto> box\<lparr>classList := ?cl, innerHTML := ?raw\<rparr>)"
    proof
      assume "doc(eid \<mapsto> box\<lparr>classList := ?cl, innerHTML := html\<rparr>)
        = doc(eid \<mapsto> box\<lparr>classList := ?cl, innerHTML := ?raw\<rparr>)"
      then have "box\<lparr>classList := ?cl, innerHTML := html\<rparr>
          = box\<lparr>classList := ?cl, innerHTML := ?raw\<rparr>"
        by (rule map_upd_eqD1)
      then have "innerHTML (box\<lparr>classList := ?cl, innerHTML := html\<rparr>)
          = innerHTML (box\<lparr>classList := ?cl, innerHTML := ?raw\<rparr>)"
        by (rule arg_cong)
      then have "html = ?raw" by simp
      with neq show False by contradiction
    qed
    with Inr show ?thesis by simp
  qed
  from path differ show ?thesis by blast
qed


text \<open>
  A truthy string \<^verbatim>\<open>success\<close> takes the success path; the status \<^verbatim>\<open>ok\<close> with the falsy
  \<^verbatim>\<open>success\<close> 0 takes the raw path.
\<close>

theorem C9_success_path_selection_witness:
  "[''r'' \<mapsto> \<lparr>classList = [''loading''], innerHTML = []\<rparr>] ''r''
     = Some \<lparr>classList = [''loading''], innerHTML = []\<rparr>
   \<and> displayResult int_ops [''r'' \<mapsto> \<lparr>classList = [''loading''], innerHTML = []\<rparr>] ''r''
        (JObj [(''success'', JStr ''yes'')]) False
      = Returns [''r'' \<mapsto> \<lparr>classList = [], innerHTML = successBanner @ ''<pre>{}</pre>''\<rparr>]
   \<and> displayResult int_ops [''r'' \<mapsto> \<lparr>classList = [''loading''], innerHTML = []\<rparr>] ''r''
        (JObj [(''status'', JStr ''ok''), (''success'', JNum 0)]) False
      = Returns [''r'' \<mapsto> \<lparr>classList = [],
           innerHTML = ''<pre>{'' @ [CHR 0x0A] @ ''  \"status\": \"ok\",'' @ [CHR 0x0A]
                       @ ''  \"success\": 0'' @ [CHR 0x0A] @ ''}</pre>''\<rparr>]"
  using C9_success_path_selection
    [of "[''r'' \<mapsto> \<lparr>classList = [''loading''], innerHTML = []\<rparr>]" "''r''"
        "\<lparr>classList = [''loading''], innerHTML = []\<rparr>" int_ops "[(''success'', JStr ''yes'')]"]
    C9_success_path_selection
    [of "[''r'' \<mapsto> \<lparr>classList = [''loading''], innerHTML = []\<rparr>]" "''r''"
        "\<lparr>classList = [''loading''], innerHTML = []\<rparr>" int_ops
        "[(''status'', JStr ''ok''), (''success'', JNum 0)]"]
  by (simp add: classList_remove_def formatSuccessResult_def successBody_def dataToShow_def
      JSON_stringify_def QuoteJSONString_def quoteChar_def int_ops_def decimal.simps)


end
